theory Spec2Isabelle
  imports Main "HOL-Library.Finite_Map"
begin

section \<open>JavaScript values, documents and messages\<close>

text \<open>
  The replication code of \<^verbatim>\<open>packages/sql/collection.js\<close> never looks inside a field
  value: the only test it makes is \<^verbatim>\<open>value === undefined\<close>. A value is therefore either
  \<^verbatim>\<open>undefined\<close> or some defined value of an arbitrary type \<open>'v\<close>. Identifiers are
  values too: the parsed message id is stored in the field \<^verbatim>\<open>_id\<close> of a document.
\<close>

datatype 'v jsval = Undefined | Defined 'v

type_synonym 'v ident = "'v jsval"

text \<open>
  A document, a field mapping and every other plain JavaScript object is a finite map
  from property names to values. A property can be present with the value
  \<^verbatim>\<open>undefined\<close>, which differs from the property being absent.
\<close>

type_synonym 'v document = "(string, 'v jsval) fmap"

text \<open>
  The message handed to \<^verbatim>\<open>update\<close>: \<^verbatim>\<open>msg.id\<close> (the identifier as the transport
  writes it, of type \<open>'w\<close>), the tag \<^verbatim>\<open>msg.msg\<close>, \<^verbatim>\<open>msg.replace\<close> (\<open>None\<close> when it is
  \<^verbatim>\<open>undefined\<close> or \<^verbatim>\<open>null\<close>, the two falsy values a document-or-null can take) and
  \<^verbatim>\<open>msg.fields\<close> (the empty object when absent: \<^verbatim>\<open>_.extend\<close> and \<^verbatim>\<open>_.isEmpty\<close>
  treat both alike).
\<close>

record ('w, 'v) message =
  msg_id :: 'w
  msg_msg :: string
  msg_replace :: "'v document option"
  msg_fields :: "'v document"

text \<open>
  Every \<^verbatim>\<open>throw new Error(text)\<close> of the source is \<open>Error text\<close>. The specification
  calls the errors thrown by \<^verbatim>\<open>update\<close> protocol violations. \<open>DuplicateKey\<close> and
  \<open>NotFound\<close> are the failures of the document store.
\<close>

datatype error = Error string | DuplicateKey | NotFound

section \<open>The document store\<close>

text \<open>
  \<^verbatim>\<open>self._collection\<close> is a \<^verbatim>\<open>LocalCollection\<close> of the minimongo package, which is
  not part of the source file. The source calls it in three ways that the types below
  tell apart: \<^verbatim>\<open>remove(mongoId)\<close> and \<^verbatim>\<open>remove({})\<close> differ in the selector;
  \<^verbatim>\<open>update(mongoId, replace)\<close> passes a whole document and
  \<^verbatim>\<open>update(mongoId, modifier)\<close> an object with the operators \<^verbatim>\<open>$set\<close> and
  \<^verbatim>\<open>$unset\<close>, each present only if the loop of lines 180 to 190 created it.
\<close>

datatype 'v selector = ById "'v ident" | AllDocuments

record 'v operators =
  op_set :: "'v document option"
  op_unset :: "(string, int) fmap option"

datatype 'v update_arg = WholeDocument "'v document" | Operators "'v operators"

datatype 'v call =
    FindOne "'v ident"
  | Insert "'v document"
  | Remove "'v selector"
  | Update "'v ident" "'v update_arg"
  | PauseObservers
  | ResumeObservers

text \<open>
  Modelled from the spec: the state of the document store. Section 3: a mapping from
  identifier to document, an identifier being present iff the document exists.
  Section 5: pause nesting is counted. The calls made on the store are recorded in
  \<open>calls\<close>, in order, the way a test spy would record them; no operation reads them.
\<close>

record 'v collection =
  docs :: "('v ident, 'v document) fmap"
  paused :: nat
  calls :: "'v call list"

definition called :: "'v call \<Rightarrow> 'v collection \<Rightarrow> 'v collection" where
  "called c s = s\<lparr>calls := calls s @ [c]\<rparr>"

text \<open>The JavaScript read \<^verbatim>\<open>doc._id\<close>: \<^verbatim>\<open>undefined\<close> when the property is absent.\<close>

definition doc_id :: "'v document \<Rightarrow> 'v ident" where
  "doc_id d = (case fmlookup d ''_id'' of None \<Rightarrow> Undefined | Some v \<Rightarrow> v)"

text \<open>
  Modelled from the spec: \<^verbatim>\<open>LocalCollection.findOne\<close> is not part of the source file.
  Section 4.1: returns the document or "not found", no exception, no side effect.
\<close>

definition coll_findOne ::
  "'v ident \<Rightarrow> 'v collection \<Rightarrow> 'v document option \<times> 'v collection" where
  "coll_findOne i s = (fmlookup (docs s) i, called (FindOne i) s)"

text \<open>
  Modelled from the spec: \<^verbatim>\<open>LocalCollection.insert\<close> is not part of the source file.
  Section 4.1: fails with \<open>DuplicateKey\<close> if the identifier is already present. The
  identifier of a document is its \<^verbatim>\<open>_id\<close> property, as line 170 of the source builds it.
\<close>

definition coll_insert ::
  "'v document \<Rightarrow> 'v collection \<Rightarrow> error option \<times> 'v collection" where
  "coll_insert d s =
     (let s1 = called (Insert d) s in
      if fmlookup (docs s) (doc_id d) \<noteq> None then (Some DuplicateKey, s1)
      else (None, s1\<lparr>docs := fmupd (doc_id d) d (docs s)\<rparr>))"

text \<open>
  Modelled from the spec: \<^verbatim>\<open>LocalCollection.remove\<close> is not part of the source file.
  Section 4.1: \<^verbatim>\<open>remove(id)\<close> fails with \<open>NotFound\<close> if the document is absent;
  section 4.2: \<^verbatim>\<open>remove({})\<close> removes every document.
\<close>

definition coll_remove ::
  "'v selector \<Rightarrow> 'v collection \<Rightarrow> error option \<times> 'v collection" where
  "coll_remove sel s =
     (let s1 = called (Remove sel) s in
      case sel of
        AllDocuments \<Rightarrow> (None, s1\<lparr>docs := fmempty\<rparr>)
      | ById i \<Rightarrow>
          if fmlookup (docs s) i = None then (Some NotFound, s1)
          else (None, s1\<lparr>docs := fmdrop i (docs s)\<rparr>))"

text \<open>
  Modelled from the spec: what an update does to the stored document. Section 4.2: a
  whole document replaces it ("overwrite its fields with those of the replacement, not
  merge"). Section 3: the operators set the fields of \<^verbatim>\<open>$set\<close> and remove the fields
  of \<^verbatim>\<open>$unset\<close>.
\<close>

definition apply_update :: "'v update_arg \<Rightarrow> 'v document \<Rightarrow> 'v document" where
  "apply_update u d =
     (case u of
        WholeDocument r \<Rightarrow> r
      | Operators ops \<Rightarrow>
          fmdrop_fset (case op_unset ops of None \<Rightarrow> {||} | Some un \<Rightarrow> fmdom un)
            (fmadd d (case op_set ops of None \<Rightarrow> fmempty | Some st \<Rightarrow> st)))"

text \<open>
  Modelled from the spec: \<^verbatim>\<open>LocalCollection.update\<close> is not part of the source file.
  Section 4.1: applies a partial field change (set/unset) and fails with \<open>NotFound\<close>
  if the document does not exist; section 4.2 for the whole-document form.
\<close>

definition coll_update ::
  "'v ident \<Rightarrow> 'v update_arg \<Rightarrow> 'v collection \<Rightarrow> error option \<times> 'v collection" where
  "coll_update i u s =
     (let s1 = called (Update i u) s in
      case fmlookup (docs s) i of
        None \<Rightarrow> (Some NotFound, s1)
      | Some d \<Rightarrow> (None, s1\<lparr>docs := fmupd i (apply_update u d) (docs s)\<rparr>))"

text \<open>
  Modelled from the spec: \<^verbatim>\<open>LocalCollection.pauseObservers\<close> is not part of the source
  file. Section 5: pause nesting is counted.
\<close>

definition coll_pauseObservers :: "'v collection \<Rightarrow> error option \<times> 'v collection" where
  "coll_pauseObservers s = (None, (called PauseObservers s)\<lparr>paused := Suc (paused s)\<rparr>)"

text \<open>
  Modelled from the spec: \<^verbatim>\<open>LocalCollection.resumeObservers\<close> is not part of the source
  file. Sections 4.2 and 5: a resume takes one level of pause nesting away, and a
  resume without a matching pause is a no-op, not an error.
\<close>

definition coll_resumeObservers :: "'v collection \<Rightarrow> error option \<times> 'v collection" where
  "coll_resumeObservers s =
     (let s1 = called ResumeObservers s in
      if paused s = 0 then (None, s1) else (None, s1\<lparr>paused := paused s - 1\<rparr>))"

section \<open>The store registered with the connection\<close>

text \<open>
  The methods \<^verbatim>\<open>beginUpdate\<close>, \<^verbatim>\<open>update\<close> and \<^verbatim>\<open>endUpdate\<close> of the object passed to
  \<^verbatim>\<open>registerStore\<close> (lines 121 to 212). Each takes the collection and returns the
  error thrown, if any, with the collection as the call left it. An exception of the
  store is not caught: it is the result of the method. The two other methods,
  \<^verbatim>\<open>saveOriginals\<close> and \<^verbatim>\<open>retrieveOriginals\<close>, hand the call on to the store and
  are left out.
\<close>

definition beginUpdate :: "int \<Rightarrow> bool \<Rightarrow> 'v collection \<Rightarrow> error option \<times> 'v collection" where
  "beginUpdate batchSize reset s =
     (case (if batchSize > 1 \<or> reset then coll_pauseObservers s else (None, s)) of
        (Some e, s1) \<Rightarrow> (Some e, s1)
      | (None, s1) \<Rightarrow> if reset then coll_remove AllDocuments s1 else (None, s1))"

text \<open>
  The loop \<^verbatim>\<open>_.each(msg.fields, ...)\<close> of the \<^verbatim>\<open>changed\<close> branch (lines 180 to 190),
  over the properties in the order the object enumerates them: a property is filed
  under \<^verbatim>\<open>$unset\<close> (with the value 1) when its value is \<^verbatim>\<open>undefined\<close>, under
  \<^verbatim>\<open>$set\<close> (with its value) otherwise, and each of the two operators is created when
  the first property is filed under it.
\<close>

fun each_field :: "(string \<times> 'v jsval) list \<Rightarrow> 'v operators \<Rightarrow> 'v operators" where
  "each_field [] modifier = modifier"
| "each_field ((key, val) # rest) modifier =
     each_field rest
       (if val = Undefined
        then modifier\<lparr>op_unset :=
               Some (fmupd key 1 (case op_unset modifier of None \<Rightarrow> fmempty | Some un \<Rightarrow> un))\<rparr>
        else modifier\<lparr>op_set :=
               Some (fmupd key val (case op_set modifier of None \<Rightarrow> fmempty | Some st \<Rightarrow> st))\<rparr>)"

text \<open>
  The modifier the loop builds, read off the field mapping. The property names of an
  object are distinct, and then the loop returns this modifier whatever the order of
  enumeration (lemma \<open>each_field_build_modifier\<close>).
\<close>

definition set_fields :: "'v document \<Rightarrow> 'v document" where
  "set_fields flds = fmfilter (\<lambda>k. fmlookup flds k \<noteq> Some Undefined) flds"

definition unset_fields :: "'v document \<Rightarrow> (string, int) fmap" where
  "unset_fields flds =
     fmmap (\<lambda>_. 1) (fmfilter (\<lambda>k. fmlookup flds k = Some Undefined) flds)"

definition build_modifier :: "'v document \<Rightarrow> 'v operators" where
  "build_modifier flds =
     \<lparr>op_set = (if fmdom (set_fields flds) = {||} then None else Some (set_fields flds)),
      op_unset = (if fmdom (unset_fields flds) = {||} then None
                  else Some (unset_fields flds))\<rparr>"

text \<open>
  \<^verbatim>\<open>_.extend({_id: mongoId}, msg.fields)\<close>: every property of the field mapping is
  copied onto the new object, a property \<^verbatim>\<open>_id\<close> included.
\<close>

definition added_document :: "'v ident \<Rightarrow> 'v document \<Rightarrow> 'v document" where
  "added_document mongoId flds = fmadd (fmupd ''_id'' mongoId fmempty) flds"

text \<open>
  \<^verbatim>\<open>update\<close>, lines 147 to 197. \<^verbatim>\<open>LocalCollection._idParse\<close> is not part of the source
  file and is the parameter \<open>idParse\<close>.
\<close>

definition update ::
  "('w \<Rightarrow> 'v ident) \<Rightarrow> ('w, 'v) message \<Rightarrow> 'v collection \<Rightarrow>
   error option \<times> 'v collection" where
  "update idParse m s =
     (let mongoId = idParse (msg_id m);
          (doc, s1) = coll_findOne mongoId s
      in
      if msg_msg m = ''replace'' then
        (case msg_replace m of
           None \<Rightarrow> if doc \<noteq> None then coll_remove (ById mongoId) s1 else (None, s1)
         | Some replace \<Rightarrow>
             if doc = None then coll_insert replace s1
             else coll_update mongoId (WholeDocument replace) s1)
      else if msg_msg m = ''added'' then
        (if doc \<noteq> None
         then (Some (Error ''Expected not to find a document already present for an add''), s1)
         else coll_insert (added_document mongoId (msg_fields m)) s1)
      else if msg_msg m = ''removed'' then
        (if doc = None
         then (Some (Error ''Expected to find a document already present for removed''), s1)
         else coll_remove (ById mongoId) s1)
      else if msg_msg m = ''changed'' then
        (if doc = None
         then (Some (Error ''Expected to find a document to change''), s1)
         else if fmdom (msg_fields m) \<noteq> {||}
              then coll_update mongoId (Operators (build_modifier (msg_fields m))) s1
              else (None, s1))
      else (Some (Error ''I don't know how to deal with this message''), s1))"

definition endUpdate :: "'v collection \<Rightarrow> error option \<times> 'v collection" where
  "endUpdate s = coll_resumeObservers s"

text \<open>
  A run of \<^verbatim>\<open>update\<close> calls in the order given. An exception ends the run: the
  remaining messages are not applied.
\<close>

fun apply_updates ::
  "('w \<Rightarrow> 'v ident) \<Rightarrow> ('w, 'v) message list \<Rightarrow> 'v collection \<Rightarrow>
   error option \<times> 'v collection" where
  "apply_updates idParse [] s = (None, s)"
| "apply_updates idParse (m # ms) s =
     (case update idParse m s of
        (Some e, s1) \<Rightarrow> (Some e, s1)
      | (None, s1) \<Rightarrow> apply_updates idParse ms s1)"

section \<open>The constructor\<close>

text \<open>
  \<^verbatim>\<open>SQL.Collection\<close>, lines 26 to 232. A variable that holds a connection holds
  \<^verbatim>\<open>undefined\<close>, \<^verbatim>\<open>null\<close> or an object.
\<close>

datatype 'a js_optional = JsUndefined | JsNull | JsObject 'a

text \<open>
  The first argument: \<^verbatim>\<open>null\<close>, a string, or any other value, of which only the
  truthiness matters (\<^verbatim>\<open>undefined\<close> and \<^verbatim>\<open>0\<close> are falsy, \<^verbatim>\<open>42\<close> and an object are
  truthy).
\<close>

datatype name_arg = NameNull | NameString string | NameOther bool

text \<open>
  The properties of \<^verbatim>\<open>options\<close> that decide the control flow. \<^verbatim>\<open>transform\<close> is
  passed on to \<^verbatim>\<open>LocalCollection.wrapTransform\<close> and \<^verbatim>\<open>_preventAutopublish\<close> is read
  only by code that is commented out. An argument with a truthy \<^verbatim>\<open>methods\<close> property
  is a connection passed in the place of the options (\<open>LegacyConnection\<close>).
\<close>

record ('c, 'd) options =
  opt_connection :: "'c js_optional"
  opt_manager :: "'c js_optional"
  opt_idGeneration :: "string option"
  opt_driver :: "'d option"

datatype ('c, 'd) options_arg = NoOptions | LegacyConnection 'c | Options "('c, 'd) options"

text \<open>
  What the constructor reads from outside the file: \<^verbatim>\<open>Meteor.isClient\<close>,
  \<^verbatim>\<open>Meteor.connection\<close>, \<^verbatim>\<open>Meteor.server\<close>, the driver returned by
  \<^verbatim>\<open>MongoInternals.defaultRemoteCollectionDriver()\<close> when that is defined,
  \<^verbatim>\<open>LocalCollectionDriver\<close>, and for each connection its \<^verbatim>\<open>registerStore\<close> method when
  it has one, as the truthiness of what the method returns for a name.
\<close>

record ('c, 'd) environment =
  isClient :: bool
  meteor_connection :: "'c js_optional"
  meteor_server :: "'c js_optional"
  defaultRemoteCollectionDriver :: "'d option"
  localCollectionDriver :: 'd
  registerStore :: "'c \<Rightarrow> (string option \<Rightarrow> bool) option"

datatype id_generation = MongoObjectID | RandomString

record ('c, 'd) sql_collection =
  self_makeNewID :: id_generation
  self_connection :: "'c js_optional"
  self_name :: "string option"
  self_driver :: 'd

definition truthy :: "'a js_optional \<Rightarrow> bool" where
  "truthy x = (case x of JsObject _ \<Rightarrow> True | _ \<Rightarrow> False)"

text \<open>Lines 43 to 62: the two backwards-compatibility rewrites, then the defaults.\<close>

definition effective_options :: "('c, 'd) options_arg \<Rightarrow> ('c, 'd) options" where
  "effective_options options =
     (let defaults = \<lparr>opt_connection = JsUndefined, opt_manager = JsUndefined,
                      opt_idGeneration = None, opt_driver = None\<rparr>
      in case options of
           NoOptions \<Rightarrow> defaults
         | LegacyConnection c \<Rightarrow> defaults\<lparr>opt_connection := JsObject c\<rparr>
         | Options opts \<Rightarrow>
             if truthy (opt_manager opts) \<and> \<not> truthy (opt_connection opts)
             then opts\<lparr>opt_connection := opt_manager opts\<rparr>
             else opts)"

text \<open>Lines 82 to 92. At this point the name is \<^verbatim>\<open>null\<close> or a non-empty string.\<close>

definition select_connection ::
  "('c, 'd) environment \<Rightarrow> string option \<Rightarrow> ('c, 'd) options \<Rightarrow> 'c js_optional" where
  "select_connection env name opts =
     (if name = None \<or> opt_connection opts = JsNull then JsNull
      else if truthy (opt_connection opts) then opt_connection opts
      else if isClient env then meteor_connection env
      else meteor_server env)"

text \<open>Lines 94 to 108.\<close>

definition select_driver ::
  "('c, 'd) environment \<Rightarrow> string option \<Rightarrow> 'c js_optional \<Rightarrow> ('c, 'd) options \<Rightarrow> 'd" where
  "select_driver env name conn opts =
     (case opt_driver opts of
        Some d \<Rightarrow> d
      | None \<Rightarrow>
          (case defaultRemoteCollectionDriver env of
             Some remote \<Rightarrow>
               if name \<noteq> None \<and> conn = meteor_server env then remote
               else localCollectionDriver env
           | None \<Rightarrow> localCollectionDriver env))"

text \<open>
  The constructor. \<open>with_new\<close> is the test \<^verbatim>\<open>self instanceof SQL.Collection\<close>. The
  warning of line 32 is only logged. The wrapped transform (line 80) and the store
  the driver opens (line 110) come from calls outside the source file on which the
  constructor does not branch; they are not fields of the result.
\<close>

definition SQL_Collection ::
  "('c, 'd) environment \<Rightarrow> bool \<Rightarrow> name_arg \<Rightarrow> ('c, 'd) options_arg \<Rightarrow>
   error + ('c, 'd) sql_collection" where
  "SQL_Collection env with_new name0 options0 =
     (if \<not> with_new
      then Inl (Error (''use '' @ [CHR 0x22] @ ''new'' @ [CHR 0x22] @
                       '' to construct a SQL.Collection''))
      else
        let name1 = (case name0 of
                       NameNull \<Rightarrow> NameNull
                     | NameString n \<Rightarrow> if n = [] then NameNull else NameString n
                     | NameOther t \<Rightarrow> if t then NameOther t else NameNull)
        in case name1 of
             NameOther _ \<Rightarrow>
               Inl (Error ''First argument to new Mongo.Collection must be a string or null'')
           | _ \<Rightarrow>
               let name = (case name1 of NameString n \<Rightarrow> Some n | _ \<Rightarrow> None);
                   opts = effective_options options0;
                   conn = select_connection env name opts;
                   self = \<lparr>self_makeNewID =
                             (if opt_idGeneration opts = Some ''MONGO'' then MongoObjectID
                              else RandomString),
                           self_connection = conn,
                           self_name = name,
                           self_driver = select_driver env name conn opts\<rparr>
               in case conn of
                    JsObject c \<Rightarrow>
                      (case registerStore env c of
                         Some register \<Rightarrow>
                           if \<not> register name
                           then Inl (Error (''There is already a collection named '' @
                                            [CHR 0x27] @
                                            (case name of Some n \<Rightarrow> n | None \<Rightarrow> ''null'') @
                                            [CHR 0x27]))
                           else Inr self
                       | None \<Rightarrow> Inr self)
                  | _ \<Rightarrow> Inr self)"

section \<open>The reference of the specification\<close>

text \<open>
  Section 8 of the specification compares the store with a reference map from
  identifier to field mapping, replayed under the interpretation rules of section 4.2.
  The definitions below follow the words of the specification, not the source. In the
  data model of section 3 the identifier is the key of the map and not one of the
  fields: a property \<^verbatim>\<open>_id\<close> is not a field, neither in a stored document nor in a
  field mapping or a replacement of a message, and the store is compared after \<^verbatim>\<open>_id\<close>
  is taken out of every document.
\<close>

definition fields_of :: "'v document \<Rightarrow> 'v document" where
  "fields_of d = fmdrop ''_id'' d"

definition store_fields :: "'v collection \<Rightarrow> ('v ident, 'v document) fmap" where
  "store_fields s = fmmap fields_of (docs s)"

text \<open>
  "A field mapped to an explicit absent sentinel means unset that field, any other
  value means set it."
\<close>

definition reference_changed :: "'v document \<Rightarrow> 'v document \<Rightarrow> 'v document" where
  "reference_changed flds d =
     fmfilter (\<lambda>k. fmlookup flds k \<noteq> Some Undefined) (fmadd d flds)"

text \<open>
  The rules of section 4.2; \<open>None\<close> is a protocol violation. For a replacement
  document, inserting it when the identifier is absent and overwriting the fields when
  it is present give the same map.
\<close>

definition reference_update ::
  "('w \<Rightarrow> 'v ident) \<Rightarrow> ('w, 'v) message \<Rightarrow> ('v ident, 'v document) fmap \<Rightarrow>
   ('v ident, 'v document) fmap option" where
  "reference_update idParse m R =
     (let i = idParse (msg_id m) in
      if msg_msg m = ''replace'' then
        (case msg_replace m of
           None \<Rightarrow> if fmlookup R i \<noteq> None then Some (fmdrop i R) else Some R
         | Some r \<Rightarrow> Some (fmupd i (fields_of r) R))
      else if msg_msg m = ''added'' then
        (if fmlookup R i \<noteq> None then None
         else Some (fmupd i (fields_of (msg_fields m)) R))
      else if msg_msg m = ''removed'' then
        (if fmlookup R i = None then None else Some (fmdrop i R))
      else if msg_msg m = ''changed'' then
        (case fmlookup R i of
           None \<Rightarrow> None
         | Some d \<Rightarrow>
             if fmdom (msg_fields m) \<noteq> {||}
             then Some (fmupd i (reference_changed (fields_of (msg_fields m)) d) R)
             else Some R)
      else None)"

fun reference_replay ::
  "('w \<Rightarrow> 'v ident) \<Rightarrow> ('w, 'v) message list \<Rightarrow> ('v ident, 'v document) fmap \<Rightarrow>
   ('v ident, 'v document) fmap option" where
  "reference_replay idParse [] R = Some R"
| "reference_replay idParse (m # ms) R =
     (case reference_update idParse m R of
        None \<Rightarrow> None
      | Some R' \<Rightarrow> reference_replay idParse ms R')"

text \<open>
  The messages at which the store files a new document under the identifier of the
  message. \<^verbatim>\<open>update\<close> inserts a document in two places: the document of an
  \<^verbatim>\<open>added\<close> message (line 170) and the replacement of a \<^verbatim>\<open>replace\<close> message whose
  identifier is absent (line 160). The condition is that the inserted document has
  the parsed message id as its own \<^verbatim>\<open>_id\<close>; every other message meets it.
\<close>

definition inserts_under_message_id ::
  "('w \<Rightarrow> 'v ident) \<Rightarrow> ('w, 'v) message \<Rightarrow> ('v ident, 'v document) fmap \<Rightarrow> bool" where
  "inserts_under_message_id idParse m R =
     (let i = idParse (msg_id m) in
      if msg_msg m = ''replace'' then
        (case msg_replace m of
           None \<Rightarrow> True
         | Some r \<Rightarrow> if fmlookup R i = None then doc_id r = i else True)
      else if msg_msg m = ''added'' then doc_id (added_document i (msg_fields m)) = i
      else True)"

text \<open>The condition at every step of a replay, each step on the map the steps before left.\<close>

fun replay_inserts_under_message_id ::
  "('w \<Rightarrow> 'v ident) \<Rightarrow> ('w, 'v) message list \<Rightarrow> ('v ident, 'v document) fmap \<Rightarrow> bool" where
  "replay_inserts_under_message_id idParse [] R = True"
| "replay_inserts_under_message_id idParse (m # ms) R =
     (inserts_under_message_id idParse m R \<and>
      (case reference_update idParse m R of
         None \<Rightarrow> True
       | Some R' \<Rightarrow> replay_inserts_under_message_id idParse ms R'))"

section \<open>Example data\<close>

abbreviation example_empty :: "string collection" where
  "example_empty \<equiv> \<lparr>docs = fmempty, paused = 0, calls = []\<rparr>"

abbreviation example_doc :: "string \<Rightarrow> string \<Rightarrow> string document" where
  "example_doc i n \<equiv> fmupd ''_id'' (Defined i) (fmupd ''name'' (Defined n) fmempty)"

abbreviation example_store :: "string collection" where
  "example_store \<equiv>
     \<lparr>docs = fmupd (Defined ''A'') (example_doc ''A'' ''a'')
               (fmupd (Defined ''B'') (example_doc ''B'' ''b'') fmempty),
      paused = 0, calls = []\<rparr>"

abbreviation example_paused_store :: "string collection" where
  "example_paused_store \<equiv>
     \<lparr>docs = fmupd (Defined ''A'') (example_doc ''A'' ''a'')
               (fmupd (Defined ''B'') (example_doc ''B'' ''b'') fmempty),
      paused = 1, calls = []\<rparr>"

abbreviation example_msg ::
  "string \<Rightarrow> string \<Rightarrow> string document option \<Rightarrow> string document \<Rightarrow>
   (string, string) message" where
  "example_msg tag i r flds \<equiv> \<lparr>msg_id = i, msg_msg = tag, msg_replace = r, msg_fields = flds\<rparr>"

text \<open>
  A replay on the store that holds \<open>A\<close> and \<open>B\<close>: add \<open>C\<close> (the field mapping carries
  the identifier of the message as \<^verbatim>\<open>_id\<close>), change its name while unsetting its age,
  remove \<open>B\<close>, replace the present \<open>A\<close> by a document without \<^verbatim>\<open>_id\<close>, replace the
  absent \<open>D\<close> by a document that carries \<open>D\<close>, and delete \<open>C\<close> by a replace message
  without replacement.
\<close>

abbreviation example_replay :: "(string, string) message list" where
  "example_replay \<equiv>
     [example_msg ''added'' ''C'' None
        (fmupd ''_id'' (Defined ''C'') (fmupd ''name'' (Defined ''c'') fmempty)),
      example_msg ''changed'' ''C'' None
        (fmupd ''name'' (Defined ''d'') (fmupd ''age'' Undefined fmempty)),
      example_msg ''removed'' ''B'' None fmempty,
      example_msg ''replace'' ''A'' (Some (fmupd ''name'' (Defined ''z'') fmempty)) fmempty,
      example_msg ''replace'' ''D'' (Some (example_doc ''D'' ''d'')) fmempty,
      example_msg ''replace'' ''C'' None fmempty]"

abbreviation example_env :: "(nat, nat) environment" where
  "example_env \<equiv>
     \<lparr>isClient = True, meteor_connection = JsObject 0, meteor_server = JsUndefined,
      defaultRemoteCollectionDriver = None, localCollectionDriver = 0,
      registerStore = (\<lambda>c. Some (\<lambda>name. name \<noteq> Some ''tasks''))\<rparr>"

section \<open>Facts about the store and the branches of update\<close>

lemma called_simps:
  "docs (called c s) = docs s"
  "paused (called c s) = paused s"
  "calls (called c s) = calls s @ [c]"
  by (simp_all add: called_def)

lemma coll_insert_absent:
  "fmlookup (docs s) (doc_id d) = None \<Longrightarrow>
   coll_insert d s = (None, (called (Insert d) s)\<lparr>docs := fmupd (doc_id d) d (docs s)\<rparr>)"
  by (simp add: coll_insert_def Let_def)

lemma coll_remove_present:
  "fmlookup (docs s) i \<noteq> None \<Longrightarrow>
   coll_remove (ById i) s = (None, (called (Remove (ById i)) s)\<lparr>docs := fmdrop i (docs s)\<rparr>)"
  by (simp add: coll_remove_def Let_def)

lemma coll_remove_all:
  "coll_remove AllDocuments s = (None, (called (Remove AllDocuments) s)\<lparr>docs := fmempty\<rparr>)"
  by (simp add: coll_remove_def Let_def)

lemma coll_update_present:
  "fmlookup (docs s) i = Some d \<Longrightarrow>
   coll_update i u s =
     (None, (called (Update i u) s)\<lparr>docs := fmupd i (apply_update u d) (docs s)\<rparr>)"
  by (simp add: coll_update_def Let_def)

lemma added_document_lookup:
  "fmlookup (added_document i flds) k =
     (case fmlookup flds k of
        Some v \<Rightarrow> Some v
      | None \<Rightarrow> if k = ''_id'' then Some i else None)"
  by (auto simp add: added_document_def fmlookup_dom_iff split: option.splits)

lemma doc_id_added_document:
  "doc_id (added_document i flds) = (case fmlookup flds ''_id'' of None \<Rightarrow> i | Some v \<Rightarrow> v)"
  by (simp add: doc_id_def added_document_lookup split: option.splits)

lemma update_replace:
  "msg_msg m = ''replace'' \<Longrightarrow>
   update idParse m s =
     (case msg_replace m of
        None \<Rightarrow>
          if fmlookup (docs s) (idParse (msg_id m)) \<noteq> None
          then coll_remove (ById (idParse (msg_id m))) (called (FindOne (idParse (msg_id m))) s)
          else (None, called (FindOne (idParse (msg_id m))) s)
      | Some r \<Rightarrow>
          if fmlookup (docs s) (idParse (msg_id m)) = None
          then coll_insert r (called (FindOne (idParse (msg_id m))) s)
          else coll_update (idParse (msg_id m)) (WholeDocument r)
                 (called (FindOne (idParse (msg_id m))) s))"
  by (simp add: update_def coll_findOne_def Let_def)

lemma update_added:
  "msg_msg m = ''added'' \<Longrightarrow>
   update idParse m s =
     (if fmlookup (docs s) (idParse (msg_id m)) \<noteq> None
      then (Some (Error ''Expected not to find a document already present for an add''),
            called (FindOne (idParse (msg_id m))) s)
      else coll_insert (added_document (idParse (msg_id m)) (msg_fields m))
             (called (FindOne (idParse (msg_id m))) s))"
  by (simp add: update_def coll_findOne_def Let_def)

lemma update_removed:
  "msg_msg m = ''removed'' \<Longrightarrow>
   update idParse m s =
     (if fmlookup (docs s) (idParse (msg_id m)) = None
      then (Some (Error ''Expected to find a document already present for removed''),
            called (FindOne (idParse (msg_id m))) s)
      else coll_remove (ById (idParse (msg_id m))) (called (FindOne (idParse (msg_id m))) s))"
  by (simp add: update_def coll_findOne_def Let_def)

lemma update_changed:
  "msg_msg m = ''changed'' \<Longrightarrow>
   update idParse m s =
     (if fmlookup (docs s) (idParse (msg_id m)) = None
      then (Some (Error ''Expected to find a document to change''),
            called (FindOne (idParse (msg_id m))) s)
      else if fmdom (msg_fields m) \<noteq> {||}
      then coll_update (idParse (msg_id m)) (Operators (build_modifier (msg_fields m)))
             (called (FindOne (idParse (msg_id m))) s)
      else (None, called (FindOne (idParse (msg_id m))) s))"
  by (simp add: update_def coll_findOne_def Let_def)

subsection \<open>The modifier of a changed message\<close>

lemma fmdom_empty_fmempty: "fmdom m = {||} \<Longrightarrow> m = fmempty"
  by (rule fmap_ext) (simp add: fmdom_notD)

lemma set_fields_lookup:
  "fmlookup (set_fields flds) k =
     (if fmlookup flds k = Some Undefined then None else fmlookup flds k)"
  by (simp add: set_fields_def)

lemma set_fields_dom:
  "k |\<in>| fmdom (set_fields flds) \<longleftrightarrow> (\<exists>v. fmlookup flds k = Some v \<and> v \<noteq> Undefined)"
  by (auto simp add: set_fields_def fmlookup_dom_iff)

lemma unset_fields_lookup:
  "fmlookup (unset_fields flds) k = (if fmlookup flds k = Some Undefined then Some 1 else None)"
  by (simp add: unset_fields_def)

lemma unset_fields_dom:
  "k |\<in>| fmdom (unset_fields flds) \<longleftrightarrow> fmlookup flds k = Some Undefined"
  by (auto simp add: unset_fields_def fmlookup_dom_iff)

lemma op_set_build_modifier:
  "(case op_set (build_modifier flds) of None \<Rightarrow> fmempty | Some st \<Rightarrow> st) = set_fields flds"
  by (auto simp add: build_modifier_def dest: fmdom_empty_fmempty)

lemma op_unset_build_modifier:
  "(case op_unset (build_modifier flds) of None \<Rightarrow> {||} | Some un \<Rightarrow> fmdom un) =
   fmdom (unset_fields flds)"
  by (simp add: build_modifier_def)

lemma apply_build_modifier_lookup:
  "fmlookup (apply_update (Operators (build_modifier flds)) d) k =
     (case fmlookup flds k of
        None \<Rightarrow> fmlookup d k
      | Some Undefined \<Rightarrow> None
      | Some (Defined v) \<Rightarrow> Some (Defined v))"
  by (auto simp add: apply_update_def op_set_build_modifier op_unset_build_modifier
      unset_fields_lookup set_fields_lookup fmlookup_dom_iff split: option.splits jsval.splits)

lemma each_field_set_none:
  "op_set (each_field kvs M) = None \<longleftrightarrow>
   op_set M = None \<and> (\<forall>kv \<in> set kvs. snd kv = Undefined)"
  by (induction kvs M rule: each_field.induct) auto

lemma each_field_unset_none:
  "op_unset (each_field kvs M) = None \<longleftrightarrow>
   op_unset M = None \<and> (\<forall>kv \<in> set kvs. snd kv \<noteq> Undefined)"
  by (induction kvs M rule: each_field.induct) auto

lemma each_field_set_lookup:
  "distinct (map fst kvs) \<Longrightarrow>
   fmlookup (case op_set (each_field kvs M) of None \<Rightarrow> fmempty | Some st \<Rightarrow> st) k =
     (case map_of kvs k of
        None \<Rightarrow> fmlookup (case op_set M of None \<Rightarrow> fmempty | Some st \<Rightarrow> st) k
      | Some v \<Rightarrow>
          if v = Undefined
          then fmlookup (case op_set M of None \<Rightarrow> fmempty | Some st \<Rightarrow> st) k
          else Some v)"
proof (induction kvs M rule: each_field.induct)
  case (1 modifier)
  then show ?case by simp
next
  case (2 key val rest modifier)
  then have "map_of rest key = None"
    by (simp add: map_of_eq_None_iff)
  with 2 show ?case
    by (auto split: option.splits)
qed

lemma each_field_unset_lookup:
  "distinct (map fst kvs) \<Longrightarrow>
   fmlookup (case op_unset (each_field kvs M) of None \<Rightarrow> fmempty | Some un \<Rightarrow> un) k =
     (case map_of kvs k of
        None \<Rightarrow> fmlookup (case op_unset M of None \<Rightarrow> fmempty | Some un \<Rightarrow> un) k
      | Some v \<Rightarrow>
          if v = Undefined
          then Some 1
          else fmlookup (case op_unset M of None \<Rightarrow> fmempty | Some un \<Rightarrow> un) k)"
proof (induction kvs M rule: each_field.induct)
  case (1 modifier)
  then show ?case by simp
next
  case (2 key val rest modifier)
  then have "map_of rest key = None"
    by (simp add: map_of_eq_None_iff)
  with 2 show ?case
    by (auto split: option.splits)
qed

lemma each_field_build_modifier:
  assumes "distinct (map fst kvs)"
  shows "each_field kvs \<lparr>op_set = None, op_unset = None\<rparr> = build_modifier (fmap_of_list kvs)"
proof -
  let ?M = "each_field kvs \<lparr>op_set = None, op_unset = None\<rparr>"
  let ?F = "fmap_of_list kvs"
  have look: "fmlookup ?F k = map_of kvs k" for k
    by (simp add: fmlookup_of_list)
  have set_eq: "(case op_set ?M of None \<Rightarrow> fmempty | Some st \<Rightarrow> st) = set_fields ?F"
    by (rule fmap_ext)
      (simp add: each_field_set_lookup[OF assms] set_fields_lookup look split: option.splits)
  have unset_eq: "(case op_unset ?M of None \<Rightarrow> fmempty | Some un \<Rightarrow> un) = unset_fields ?F"
    by (rule fmap_ext)
      (simp add: each_field_unset_lookup[OF assms] unset_fields_lookup look split: option.splits)
  have set_none: "op_set ?M = None \<longleftrightarrow> fmdom (set_fields ?F) = {||}"
  proof
    assume "op_set ?M = None"
    with set_eq show "fmdom (set_fields ?F) = {||}" by simp
  next
    assume empty: "fmdom (set_fields ?F) = {||}"
    have "snd kv = Undefined" if "kv \<in> set kvs" for kv
    proof (rule ccontr)
      assume defined: "snd kv \<noteq> Undefined"
      from that have "map_of kvs (fst kv) = Some (snd kv)"
        by (simp add: map_of_eq_Some_iff[OF assms])
      with defined have "fst kv |\<in>| fmdom (set_fields ?F)"
        by (simp add: set_fields_dom look)
      with empty show False by simp
    qed
    then show "op_set ?M = None"
      by (simp add: each_field_set_none)
  qed
  have unset_none: "op_unset ?M = None \<longleftrightarrow> fmdom (unset_fields ?F) = {||}"
  proof
    assume "op_unset ?M = None"
    with unset_eq show "fmdom (unset_fields ?F) = {||}" by simp
  next
    assume empty: "fmdom (unset_fields ?F) = {||}"
    have "snd kv \<noteq> Undefined" if "kv \<in> set kvs" for kv
    proof
      assume undefined: "snd kv = Undefined"
      from that have "map_of kvs (fst kv) = Some (snd kv)"
        by (simp add: map_of_eq_Some_iff[OF assms])
      with undefined have "fst kv |\<in>| fmdom (unset_fields ?F)"
        by (simp add: unset_fields_dom look)
      with empty show False by simp
    qed
    then show "op_unset ?M = None"
      by (simp add: each_field_unset_none)
  qed
  have "op_set ?M = op_set (build_modifier ?F)"
    using set_eq set_none by (cases "op_set ?M") (simp_all add: build_modifier_def)
  moreover have "op_unset ?M = op_unset (build_modifier ?F)"
    using unset_eq unset_none by (cases "op_unset ?M") (simp_all add: build_modifier_def)
  ultimately show ?thesis by simp
qed

subsection \<open>The store seen as a reference map\<close>

lemma store_fields_lookup:
  "fmlookup (store_fields s) i = map_option fields_of (fmlookup (docs s) i)"
  by (simp add: store_fields_def)

lemma store_fields_absent:
  "fmlookup (store_fields s) i = None \<longleftrightarrow> fmlookup (docs s) i = None"
  by (simp add: store_fields_lookup)

lemma store_fields_docs_upd:
  "store_fields (s'\<lparr>docs := fmupd i d (docs s)\<rparr>) = fmupd i (fields_of d) (store_fields s)"
  by (simp add: store_fields_def fmmap_fmupd)

lemma store_fields_docs_drop:
  "store_fields (s'\<lparr>docs := fmdrop i (docs s)\<rparr>) = fmdrop i (store_fields s)"
  by (simp add: store_fields_def)

lemma store_fields_called:
  "store_fields (called c s) = store_fields s"
  by (simp add: store_fields_def called_def)

lemma fields_of_added_document:
  "fields_of (added_document i flds) = fields_of flds"
  by (rule fmap_ext) (auto simp add: fields_of_def added_document_lookup split: option.splits)

lemma fields_of_changed:
  "fields_of (apply_update (Operators (build_modifier flds)) d) =
   reference_changed (fields_of flds) (fields_of d)"
  by (rule fmap_ext)
    (auto simp add: fields_of_def apply_build_modifier_lookup reference_changed_def
      fmlookup_dom_iff split: option.splits jsval.splits)

lemma refines_replace_none:
  assumes "msg_msg m = ''replace''" and "msg_replace m = None"
      and "reference_update idParse m (store_fields s) = Some R"
  shows "fst (update idParse m s) = None \<and> store_fields (snd (update idParse m s)) = R"
proof (cases "fmlookup (docs s) (idParse (msg_id m)) = None")
  case True
  then have "update idParse m s = (None, called (FindOne (idParse (msg_id m))) s)"
    using assms(1,2) by (simp add: update_replace)
  moreover have "R = store_fields s"
    using assms True by (simp add: reference_update_def Let_def store_fields_absent)
  ultimately show ?thesis
    by (simp add: store_fields_called)
next
  case False
  then have "update idParse m s =
      (None, (called (Remove (ById (idParse (msg_id m)))) (called (FindOne (idParse (msg_id m))) s))
               \<lparr>docs := fmdrop (idParse (msg_id m)) (docs s)\<rparr>)"
    using assms(1,2) by (simp add: update_replace coll_remove_present called_simps)
  moreover have "R = fmdrop (idParse (msg_id m)) (store_fields s)"
    using assms False by (simp add: reference_update_def Let_def store_fields_absent)
  ultimately show ?thesis
    by (simp add: store_fields_docs_drop)
qed

lemma refines_replace_present:
  assumes "msg_msg m = ''replace''" and "msg_replace m = Some r"
      and "reference_update idParse m (store_fields s) = Some R"
      and "fmlookup (docs s) (idParse (msg_id m)) = Some d"
  shows "fst (update idParse m s) = None \<and> store_fields (snd (update idParse m s)) = R"
proof -
  let ?i = "idParse (msg_id m)"
  have R: "R = fmupd ?i (fields_of r) (store_fields s)"
    using assms(1,2,3) by (simp add: reference_update_def Let_def)
  have "update idParse m s =
      (None, (called (Update ?i (WholeDocument r)) (called (FindOne ?i) s))
               \<lparr>docs := fmupd ?i r (docs s)\<rparr>)"
    using assms(1,2,4)
    by (simp add: update_replace coll_update_def called_simps apply_update_def Let_def)
  then show ?thesis by (simp add: R store_fields_docs_upd)
qed

lemma refines_replace_absent:
  assumes "msg_msg m = ''replace''" and "msg_replace m = Some r"
      and "reference_update idParse m (store_fields s) = Some R"
      and "fmlookup (docs s) (idParse (msg_id m)) = None"
      and "doc_id r = idParse (msg_id m)"
  shows "fst (update idParse m s) = None \<and> store_fields (snd (update idParse m s)) = R"
proof -
  let ?i = "idParse (msg_id m)"
  have R: "R = fmupd ?i (fields_of r) (store_fields s)"
    using assms(1,2,3) by (simp add: reference_update_def Let_def)
  have "update idParse m s =
      (None, (called (Insert r) (called (FindOne ?i) s))\<lparr>docs := fmupd ?i r (docs s)\<rparr>)"
    using assms(1,2,4,5) by (simp add: update_replace coll_insert_absent called_simps)
  then show ?thesis by (simp add: R store_fields_docs_upd)
qed

lemma refines_added:
  assumes "msg_msg m = ''added''"
      and "reference_update idParse m (store_fields s) = Some R"
      and "doc_id (added_document (idParse (msg_id m)) (msg_fields m)) = idParse (msg_id m)"
  shows "fst (update idParse m s) = None \<and> store_fields (snd (update idParse m s)) = R"
proof -
  let ?i = "idParse (msg_id m)"
  let ?d = "added_document ?i (msg_fields m)"
  have absent: "fmlookup (docs s) ?i = None"
    using assms(1,2)
    by (simp add: reference_update_def Let_def store_fields_absent split: if_splits)
  have R: "R = fmupd ?i (fields_of (msg_fields m)) (store_fields s)"
    using assms(1,2) by (simp add: reference_update_def Let_def split: if_splits)
  have "update idParse m s =
      (None, (called (Insert ?d) (called (FindOne ?i) s))\<lparr>docs := fmupd ?i ?d (docs s)\<rparr>)"
    using assms(1,3) absent by (simp add: update_added coll_insert_absent called_simps)
  then show ?thesis
    by (simp add: R store_fields_docs_upd fields_of_added_document)
qed

lemma refines_removed:
  assumes "msg_msg m = ''removed''"
      and "reference_update idParse m (store_fields s) = Some R"
  shows "fst (update idParse m s) = None \<and> store_fields (snd (update idParse m s)) = R"
proof -
  let ?i = "idParse (msg_id m)"
  have present: "fmlookup (docs s) ?i \<noteq> None"
    using assms by (simp add: reference_update_def Let_def store_fields_absent split: if_splits)
  have R: "R = fmdrop ?i (store_fields s)"
    using assms by (simp add: reference_update_def Let_def split: if_splits)
  have "update idParse m s =
      (None, (called (Remove (ById ?i)) (called (FindOne ?i) s))\<lparr>docs := fmdrop ?i (docs s)\<rparr>)"
    using assms(1) present by (simp add: update_removed coll_remove_present called_simps)
  then show ?thesis by (simp add: R store_fields_docs_drop)
qed

lemma refines_changed:
  assumes "msg_msg m = ''changed''"
      and "reference_update idParse m (store_fields s) = Some R"
  shows "fst (update idParse m s) = None \<and> store_fields (snd (update idParse m s)) = R"
proof -
  let ?i = "idParse (msg_id m)"
  obtain d where present: "fmlookup (docs s) ?i = Some d"
    using assms(1,2)
    by (cases "fmlookup (docs s) ?i")
      (simp_all add: reference_update_def Let_def store_fields_lookup)
  have found: "fmlookup (docs (called (FindOne ?i) s)) ?i = Some d"
    using present by (simp add: called_simps)
  show ?thesis
  proof (cases "fmdom (msg_fields m) = {||}")
    case True
    then have "update idParse m s = (None, called (FindOne ?i) s)"
      using assms(1) present by (simp add: update_changed)
    moreover have "R = store_fields s"
      using assms(1,2) present True
      by (simp add: reference_update_def Let_def store_fields_lookup)
    ultimately show ?thesis by (simp add: store_fields_called)
  next
    case False
    let ?d' = "apply_update (Operators (build_modifier (msg_fields m))) d"
    have "update idParse m s =
        (None, (called (Update ?i (Operators (build_modifier (msg_fields m))))
                  (called (FindOne ?i) s))\<lparr>docs := fmupd ?i ?d' (docs s)\<rparr>)"
      using assms(1) present False
      by (simp add: update_changed coll_update_present[OF found] called_simps)
    moreover have "R = fmupd ?i (reference_changed (fields_of (msg_fields m)) (fields_of d))
                        (store_fields s)"
      using assms(1,2) present False
      by (simp add: reference_update_def Let_def store_fields_lookup)
    ultimately show ?thesis
      by (simp add: store_fields_docs_upd fields_of_changed)
  qed
qed

lemma update_refines_step:
  assumes "reference_update idParse m (store_fields s) = Some R"
      and "inserts_under_message_id idParse m (store_fields s)"
  shows "fst (update idParse m s) = None \<and> store_fields (snd (update idParse m s)) = R"
proof -
  consider (replace) "msg_msg m = ''replace''" | (added) "msg_msg m = ''added''"
    | (removed) "msg_msg m = ''removed''" | (changed) "msg_msg m = ''changed''"
    | (other) "msg_msg m \<noteq> ''replace''" "msg_msg m \<noteq> ''added''"
        "msg_msg m \<noteq> ''removed''" "msg_msg m \<noteq> ''changed''"
    by blast
  then show ?thesis
  proof cases
    case replace
    show ?thesis
    proof (cases "msg_replace m")
      case None
      show ?thesis by (rule refines_replace_none[OF replace None assms(1)])
    next
      case (Some r)
      show ?thesis
      proof (cases "fmlookup (docs s) (idParse (msg_id m))")
        case None
        with replace Some assms(2) have "doc_id r = idParse (msg_id m)"
          by (simp add: inserts_under_message_id_def Let_def store_fields_absent)
        with None show ?thesis
          by (simp add: refines_replace_absent[OF replace Some assms(1)])
      next
        case (Some d)
        then show ?thesis
          by (rule refines_replace_present[OF replace \<open>msg_replace m = Some r\<close> assms(1)])
      qed
    qed
  next
    case added
    with assms(2) have "doc_id (added_document (idParse (msg_id m)) (msg_fields m)) =
        idParse (msg_id m)"
      by (simp add: inserts_under_message_id_def Let_def)
    then show ?thesis by (rule refines_added[OF added assms(1)])
  next
    case removed
    show ?thesis by (rule refines_removed[OF removed assms(1)])
  next
    case changed
    show ?thesis by (rule refines_changed[OF changed assms(1)])
  next
    case other
    with assms(1) show ?thesis
      by (simp add: reference_update_def Let_def)
  qed
qed

text \<open>
  The condition excludes no message at which the store follows the reference: where
  the reference accepts a message that fails the condition, \<^verbatim>\<open>update\<close> throws or
  leaves another map than the reference.
\<close>

lemma insert_under_other_id_differs:
  assumes "fmlookup (docs s) i = None" and "doc_id d \<noteq> i" and "docs s' = docs s"
  shows "fst (coll_insert d s') \<noteq> None
       \<or> store_fields (snd (coll_insert d s')) \<noteq> fmupd i flds (store_fields s)"
proof (cases "fmlookup (docs s) (doc_id d) = None")
  case True
  then have "docs (snd (coll_insert d s')) = fmupd (doc_id d) d (docs s)"
    using assms(3) by (simp add: coll_insert_def called_simps Let_def)
  then have "fmlookup (store_fields (snd (coll_insert d s'))) i = None"
    using assms(1,2) by (simp add: store_fields_lookup)
  moreover have "fmlookup (fmupd i flds (store_fields s)) i = Some flds"
    by simp
  ultimately show ?thesis by auto
next
  case False
  then show ?thesis
    using assms(3) by (simp add: coll_insert_def called_simps Let_def)
qed

lemma update_differs_otherwise:
  assumes "reference_update idParse m (store_fields s) = Some R"
      and "\<not> inserts_under_message_id idParse m (store_fields s)"
  shows "fst (update idParse m s) \<noteq> None \<or> store_fields (snd (update idParse m s)) \<noteq> R"
proof -
  let ?i = "idParse (msg_id m)"
  from assms(2) consider
      (replace) r where "msg_msg m = ''replace''" "msg_replace m = Some r"
        "fmlookup (docs s) ?i = None" "doc_id r \<noteq> ?i"
    | (added) "msg_msg m = ''added''" "doc_id (added_document ?i (msg_fields m)) \<noteq> ?i"
    by (auto simp add: inserts_under_message_id_def Let_def store_fields_absent
        split: if_splits option.splits)
  then show ?thesis
  proof cases
    case replace
    have R: "R = fmupd ?i (fields_of r) (store_fields s)"
      using replace(1,2) assms(1) by (simp add: reference_update_def Let_def)
    have run: "update idParse m s = coll_insert r (called (FindOne ?i) s)"
      using replace(1,2,3) by (simp add: update_replace)
    show ?thesis
      unfolding run R
      by (rule insert_under_other_id_differs[OF replace(3,4)]) (simp add: called_simps)
  next
    case added
    have absent: "fmlookup (docs s) ?i = None"
      using added(1) assms(1)
      by (simp add: reference_update_def Let_def store_fields_absent split: if_splits)
    have R: "R = fmupd ?i (fields_of (msg_fields m)) (store_fields s)"
      using added(1) assms(1) by (simp add: reference_update_def Let_def split: if_splits)
    have run: "update idParse m s =
        coll_insert (added_document ?i (msg_fields m)) (called (FindOne ?i) s)"
      using added(1) absent by (simp add: update_added)
    show ?thesis
      unfolding run R
      by (rule insert_under_other_id_differs[OF absent added(2)]) (simp add: called_simps)
  qed
qed

section \<open>Replaying a message sequence\<close>

text \<open>
  Claim C1, as the specification states it, fails: an \<^verbatim>\<open>added\<close> message for the absent
  identifier \<open>A\<close> whose field mapping has the property \<^verbatim>\<open>_id\<close> with the value \<open>B\<close>
  meets its precondition, the reference map has the new entry under \<open>A\<close>, and the
  store files the document under \<open>B\<close>.
\<close>

theorem added_with_id_field_counterexample:
  "reference_replay Defined
       [example_msg ''added'' ''A'' None (fmupd ''_id'' (Defined ''B'') fmempty)]
       (store_fields example_empty) =
     Some (fmupd (Defined ''A'') fmempty fmempty)
 \<and> fst (apply_updates Defined
       [example_msg ''added'' ''A'' None (fmupd ''_id'' (Defined ''B'') fmempty)]
       example_empty) = None
 \<and> store_fields (snd (apply_updates Defined
       [example_msg ''added'' ''A'' None (fmupd ''_id'' (Defined ''B'') fmempty)]
       example_empty)) =
     fmupd (Defined ''B'') fmempty fmempty
 \<and> fmlookup (docs (snd (apply_updates Defined
       [example_msg ''added'' ''A'' None (fmupd ''_id'' (Defined ''B'') fmempty)]
       example_empty))) (Defined ''A'') = None
 \<and> fmupd (Defined ''B'') fmempty fmempty \<noteq>
     (fmupd (Defined ''A'') fmempty fmempty :: (string ident, string document) fmap)"
proof -
  have "fmlookup (fmupd (Defined ''B'') fmempty fmempty
          :: (string ident, string document) fmap) (Defined ''A'')
      \<noteq> fmlookup (fmupd (Defined ''A'') fmempty fmempty) (Defined ''A'')"
    by simp
  then have differ: "fmupd (Defined ''B'') fmempty fmempty \<noteq>
     (fmupd (Defined ''A'') fmempty fmempty :: (string ident, string document) fmap)"
    by metis
  then show ?thesis
    by (simp add: reference_update_def Let_def store_fields_def update_added coll_insert_def
        called_def doc_id_def fmmap_fmupd fields_of_def added_document_def fmdrop_fmupd_same)
qed

text \<open>
  Claim C1, amended: for every sequence of messages whose existence preconditions hold
  at each step of the reference replay, and in which every document that a step makes
  the store insert (the document of an \<^verbatim>\<open>added\<close> message, the replacement of a
  \<^verbatim>\<open>replace\<close> message whose identifier is absent at that step) has the parsed message
  id as its own \<^verbatim>\<open>_id\<close>, the run of \<^verbatim>\<open>update\<close> calls throws nothing and leaves the
  store, seen as a map from identifier to field mapping, equal to the reference map.
\<close>

theorem replay_matches_reference:
  assumes "reference_replay idParse ms (store_fields s) = Some R"
      and "replay_inserts_under_message_id idParse ms (store_fields s)"
  shows "fst (apply_updates idParse ms s) = None
       \<and> store_fields (snd (apply_updates idParse ms s)) = R"
  using assms
proof (induction ms arbitrary: s)
  case Nil
  then show ?case by simp
next
  case (Cons m ms)
  from Cons.prems(1) obtain R1 where
    step: "reference_update idParse m (store_fields s) = Some R1" and
    rest: "reference_replay idParse ms R1 = Some R"
    by (auto split: option.splits)
  from Cons.prems(2) step have here: "inserts_under_message_id idParse m (store_fields s)"
    and later: "replay_inserts_under_message_id idParse ms R1"
    by simp_all
  obtain e s1 where run: "update idParse m s = (e, s1)"
    by (cases "update idParse m s")
  from update_refines_step[OF step here] run
  have "e = None" and "store_fields s1 = R1" by simp_all
  with rest later Cons.IH[of s1] run show ?case by simp
qed

text \<open>
  The example replay meets both hypotheses; it ends with \<open>A\<close>, whose only field is the
  name \<open>z\<close>, and \<open>D\<close> with the name \<open>d\<close>.
\<close>

theorem replay_matches_reference_witness:
  "reference_replay Defined example_replay (store_fields example_store) =
     Some (fmupd (Defined ''D'') (fmupd ''name'' (Defined ''d'') fmempty)
            (fmupd (Defined ''A'') (fmupd ''name'' (Defined ''z'') fmempty) fmempty))
 \<and> replay_inserts_under_message_id Defined example_replay (store_fields example_store)
 \<and> fst (apply_updates Defined example_replay example_store) = None
 \<and> store_fields (snd (apply_updates Defined example_replay example_store)) =
     fmupd (Defined ''D'') (fmupd ''name'' (Defined ''d'') fmempty)
       (fmupd (Defined ''A'') (fmupd ''name'' (Defined ''z'') fmempty) fmempty)"
proof -
  have replay: "reference_replay Defined example_replay (store_fields example_store) =
     Some (fmupd (Defined ''D'') (fmupd ''name'' (Defined ''d'') fmempty)
            (fmupd (Defined ''A'') (fmupd ''name'' (Defined ''z'') fmempty) fmempty))"
    by (simp add: reference_update_def Let_def store_fields_def fields_of_def
        reference_changed_def fmmap_fmupd fmdrop_fmupd)
  have inserts: "replay_inserts_under_message_id Defined example_replay
      (store_fields example_store)"
    by (simp add: inserts_under_message_id_def reference_update_def Let_def store_fields_def
        fields_of_def reference_changed_def fmmap_fmupd fmdrop_fmupd doc_id_def
        added_document_def)
  from replay_matches_reference[OF replay inserts] replay inserts
  show ?thesis by simp
qed

section \<open>Opening and closing a batch\<close>

text \<open>
  Claim C2: \<^verbatim>\<open>beginUpdate(batchSize, reset)\<close> throws nothing; it calls
  \<^verbatim>\<open>pauseObservers\<close> exactly when \<open>batchSize > 1\<close> or \<open>reset\<close> holds; with \<open>reset\<close> it then
  removes every document, so the store is empty before the first \<^verbatim>\<open>update\<close> of the
  batch, and without \<open>reset\<close> it leaves the documents alone. A reset batch that adds
  one document ends with exactly that document, whatever the store held before.
\<close>

theorem beginUpdate_pauses_and_resets:
  "fst (beginUpdate batchSize reset s) = None
 \<and> calls (snd (beginUpdate batchSize reset s)) =
     calls s @ (if batchSize > 1 \<or> reset then [PauseObservers] else [])
             @ (if reset then [Remove AllDocuments] else [])
 \<and> paused (snd (beginUpdate batchSize reset s)) =
     (if batchSize > 1 \<or> reset then Suc (paused s) else paused s)
 \<and> docs (snd (beginUpdate batchSize reset s)) = (if reset then fmempty else docs s)
 \<and> (msg_msg m = ''added'' \<and> fmlookup (msg_fields m) ''_id'' = None \<longrightarrow>
      docs (snd (endUpdate (snd (update idParse m (snd (beginUpdate batchSize True s)))))) =
      fmupd (idParse (msg_id m)) (added_document (idParse (msg_id m)) (msg_fields m)) fmempty)"
  by (simp add: beginUpdate_def endUpdate_def update_added coll_insert_absent
      doc_id_added_document called_simps coll_remove_all
      coll_pauseObservers_def coll_resumeObservers_def Let_def)

text \<open>
  The store holds \<open>A\<close> and \<open>B\<close>; a reset batch of one message adds \<open>C\<close>; the store
  ends with \<open>C\<close> alone. A batch of one message without reset makes no call.
\<close>

theorem beginUpdate_pauses_and_resets_witness:
  "msg_msg (example_msg ''added'' ''C'' None (fmupd ''name'' (Defined ''c'') fmempty)) = ''added''
 \<and> fmlookup (msg_fields (example_msg ''added'' ''C'' None (fmupd ''name'' (Defined ''c'') fmempty)))
      ''_id'' = None
 \<and> calls (snd (beginUpdate 1 True example_store)) = [PauseObservers, Remove AllDocuments]
 \<and> docs (snd (endUpdate (snd (update Defined
      (example_msg ''added'' ''C'' None (fmupd ''name'' (Defined ''c'') fmempty))
      (snd (beginUpdate 1 True example_store)))))) =
    fmupd (Defined ''C'')
      (added_document (Defined ''C'') (fmupd ''name'' (Defined ''c'') fmempty)) fmempty
 \<and> calls (snd (beginUpdate 1 False example_store)) = []
 \<and> calls (snd (beginUpdate 2 False example_store)) = [PauseObservers]"
  using beginUpdate_pauses_and_resets
          [of 1 True example_store
              "example_msg ''added'' ''C'' None (fmupd ''name'' (Defined ''c'') fmempty)" Defined]
        beginUpdate_pauses_and_resets
          [of 1 False example_store
              "example_msg ''added'' ''C'' None (fmupd ''name'' (Defined ''c'') fmempty)" Defined]
        beginUpdate_pauses_and_resets
          [of 2 False example_store
              "example_msg ''added'' ''C'' None (fmupd ''name'' (Defined ''c'') fmempty)" Defined]
  by simp

text \<open>
  Claim C8, as the specification states it, fails: the store is paused once from
  elsewhere; \<^verbatim>\<open>beginUpdate(1, false)\<close> skips the pause and makes no call; the resume of
  \<^verbatim>\<open>endUpdate\<close> throws nothing, but it is not a no-op: it ends the pause that was open.
\<close>

theorem resume_ends_outer_pause_counterexample:
  "(1::int) \<le> 1
 \<and> paused example_paused_store = 1
 \<and> beginUpdate 1 False example_paused_store = (None, example_paused_store)
 \<and> fst (endUpdate (snd (beginUpdate 1 False example_paused_store))) = None
 \<and> paused (snd (endUpdate (snd (beginUpdate 1 False example_paused_store)))) = 0"
  by (simp add: beginUpdate_def endUpdate_def coll_resumeObservers_def called_def Let_def)

text \<open>
  Claim C8, amended: \<^verbatim>\<open>endUpdate()\<close> throws nothing, makes exactly one call,
  \<^verbatim>\<open>resumeObservers\<close>, whatever the state, and leaves the documents alone. After a
  \<^verbatim>\<open>beginUpdate\<close> that skipped the pause (batch size at most 1, no reset) the resume
  is still made and is never an error; it changes nothing but the record of the call
  when the store is not paused, and otherwise it takes one level off the pause that is
  open.
\<close>

theorem endUpdate_resumes_once:
  "fst (endUpdate s) = None
 \<and> calls (snd (endUpdate s)) = calls s @ [ResumeObservers]
 \<and> docs (snd (endUpdate s)) = docs s
 \<and> paused (snd (endUpdate s)) = paused s - 1
 \<and> (batchSize \<le> 1 \<and> paused s = 0 \<longrightarrow>
      endUpdate (snd (beginUpdate batchSize False s)) = (None, called ResumeObservers s))
 \<and> (batchSize \<le> 1 \<longrightarrow>
      endUpdate (snd (beginUpdate batchSize False s)) =
        (None, (called ResumeObservers s)\<lparr>paused := paused s - 1\<rparr>))"
  by (simp add: beginUpdate_def endUpdate_def coll_resumeObservers_def called_def Let_def)

text \<open>
  A batch of one message without reset, on the store that is not paused and on the
  store that is paused once.
\<close>

theorem endUpdate_resumes_once_witness:
  "(1::int) \<le> 1 \<and> paused example_store = 0
 \<and> endUpdate (snd (beginUpdate 1 False example_store)) =
     (None, example_store\<lparr>calls := [ResumeObservers]\<rparr>)
 \<and> endUpdate (snd (beginUpdate 1 False example_paused_store)) =
     (None, example_store\<lparr>calls := [ResumeObservers]\<rparr>)"
  using endUpdate_resumes_once[of example_store 1]
        endUpdate_resumes_once[of example_paused_store 1]
  by (simp add: called_def)

section \<open>The four kinds of message\<close>

text \<open>
  Claim C3: an \<^verbatim>\<open>added\<close> message for an identifier that is present, and a
  \<^verbatim>\<open>removed\<close> or \<^verbatim>\<open>changed\<close> message for an identifier that is absent, make
  \<^verbatim>\<open>update\<close> throw; the only call made on the store is the lookup, so the documents
  and the pause depth are what they were.
\<close>

theorem update_rejects_broken_precondition:
  "(msg_msg m = ''added'' \<and> fmlookup (docs s) (idParse (msg_id m)) \<noteq> None \<longrightarrow>
      update idParse m s =
        (Some (Error ''Expected not to find a document already present for an add''),
         called (FindOne (idParse (msg_id m))) s))
 \<and> (msg_msg m = ''removed'' \<and> fmlookup (docs s) (idParse (msg_id m)) = None \<longrightarrow>
      update idParse m s =
        (Some (Error ''Expected to find a document already present for removed''),
         called (FindOne (idParse (msg_id m))) s))
 \<and> (msg_msg m = ''changed'' \<and> fmlookup (docs s) (idParse (msg_id m)) = None \<longrightarrow>
      update idParse m s =
        (Some (Error ''Expected to find a document to change''),
         called (FindOne (idParse (msg_id m))) s))
 \<and> docs (called (FindOne (idParse (msg_id m))) s) = docs s
 \<and> paused (called (FindOne (idParse (msg_id m))) s) = paused s"
  by (simp add: update_added update_removed update_changed called_simps)

theorem update_rejects_broken_precondition_witness:
  "fmlookup (docs example_store) (Defined ''A'') \<noteq> None
 \<and> fst (update Defined (example_msg ''added'' ''A'' None fmempty) example_store) =
     Some (Error ''Expected not to find a document already present for an add'')
 \<and> docs (snd (update Defined (example_msg ''added'' ''A'' None fmempty) example_store)) =
     docs example_store
 \<and> fmlookup (docs example_store) (Defined ''C'') = None
 \<and> fst (update Defined (example_msg ''removed'' ''C'' None fmempty) example_store) =
     Some (Error ''Expected to find a document already present for removed'')
 \<and> docs (snd (update Defined (example_msg ''removed'' ''C'' None fmempty) example_store)) =
     docs example_store
 \<and> fst (update Defined (example_msg ''changed'' ''C'' None fmempty) example_store) =
     Some (Error ''Expected to find a document to change'')
 \<and> docs (snd (update Defined (example_msg ''changed'' ''C'' None fmempty) example_store)) =
     docs example_store"
  using update_rejects_broken_precondition
          [of "example_msg ''added'' ''A'' None fmempty" example_store Defined]
        update_rejects_broken_precondition
          [of "example_msg ''removed'' ''C'' None fmempty" example_store Defined]
        update_rejects_broken_precondition
          [of "example_msg ''changed'' ''C'' None fmempty" example_store Defined]
  by simp

text \<open>
  Claim C4: a \<^verbatim>\<open>replace\<close> message without a replacement never throws; it removes the
  document when there is one and makes no call but the lookup when there is none.
  Applied a second time it leaves the documents as the first application left them.
\<close>

theorem replace_null_deletes_idempotently:
  assumes "msg_msg m = ''replace''" and "msg_replace m = None"
  shows "fst (update idParse m s) = None
   \<and> docs (snd (update idParse m s)) = fmdrop (idParse (msg_id m)) (docs s)
   \<and> paused (snd (update idParse m s)) = paused s
   \<and> (fmlookup (docs s) (idParse (msg_id m)) = None \<longrightarrow>
        docs (snd (update idParse m s)) = docs s
      \<and> calls (snd (update idParse m s)) = calls s @ [FindOne (idParse (msg_id m))])
   \<and> (fmlookup (docs s) (idParse (msg_id m)) \<noteq> None \<longrightarrow>
        fmlookup (docs (snd (update idParse m s))) (idParse (msg_id m)) = None
      \<and> calls (snd (update idParse m s)) =
          calls s @ [FindOne (idParse (msg_id m)), Remove (ById (idParse (msg_id m)))])
   \<and> fst (update idParse m (snd (update idParse m s))) = None
   \<and> docs (snd (update idParse m (snd (update idParse m s)))) = docs (snd (update idParse m s))"
  using assms
  by (auto simp add: update_replace coll_remove_present called_simps fmdrop_idle' fmdom'_notI)

theorem replace_null_deletes_idempotently_witness:
  "msg_msg (example_msg ''replace'' ''A'' None fmempty) = ''replace''
 \<and> msg_replace (example_msg ''replace'' ''A'' None fmempty) = None
 \<and> fmlookup (docs example_store) (Defined ''A'') \<noteq> None
 \<and> fmlookup (docs (snd (update Defined (example_msg ''replace'' ''A'' None fmempty)
      example_store))) (Defined ''A'') = None
 \<and> docs (snd (update Defined (example_msg ''replace'' ''A'' None fmempty)
      (snd (update Defined (example_msg ''replace'' ''A'' None fmempty) example_store)))) =
    docs (snd (update Defined (example_msg ''replace'' ''A'' None fmempty) example_store))
 \<and> fmlookup (docs example_store) (Defined ''C'') = None
 \<and> fst (update Defined (example_msg ''replace'' ''C'' None fmempty) example_store) = None
 \<and> docs (snd (update Defined (example_msg ''replace'' ''C'' None fmempty) example_store)) =
    docs example_store"
  using replace_null_deletes_idempotently
          [of "example_msg ''replace'' ''A'' None fmempty" Defined example_store]
        replace_null_deletes_idempotently
          [of "example_msg ''replace'' ''C'' None fmempty" Defined example_store]
  by (simp add: fmdrop_fmupd)

text \<open>
  Claim C5: for a \<^verbatim>\<open>changed\<close> message whose identifier is present, \<^verbatim>\<open>update\<close> throws
  nothing. With a non-empty field mapping it makes one call of the store's
  \<^verbatim>\<open>update\<close>, whose modifier holds under \<^verbatim>\<open>$set\<close> exactly the fields with a defined
  value and under \<^verbatim>\<open>$unset\<close> exactly the fields mapped to \<^verbatim>\<open>undefined\<close>; in the stored
  document the latter are gone, the former have their new values and the fields not
  listed are untouched. With an empty field mapping the only call is the lookup and
  the documents are unchanged.
\<close>

theorem changed_sets_and_unsets:
  assumes "msg_msg m = ''changed''" and "fmlookup (docs s) (idParse (msg_id m)) = Some d"
  shows "fst (update idParse m s) = None
   \<and> (fmdom (msg_fields m) \<noteq> {||} \<longrightarrow>
        calls (snd (update idParse m s)) =
          calls s @ [FindOne (idParse (msg_id m)),
                     Update (idParse (msg_id m)) (Operators (build_modifier (msg_fields m)))]
      \<and> (\<forall>k v. (\<exists>st. op_set (build_modifier (msg_fields m)) = Some st \<and> fmlookup st k = Some v)
                \<longleftrightarrow> fmlookup (msg_fields m) k = Some v \<and> v \<noteq> Undefined)
      \<and> (\<forall>k. (\<exists>un. op_unset (build_modifier (msg_fields m)) = Some un \<and> k |\<in>| fmdom un)
                \<longleftrightarrow> fmlookup (msg_fields m) k = Some Undefined)
      \<and> (\<exists>d'. docs (snd (update idParse m s)) = fmupd (idParse (msg_id m)) d' (docs s)
            \<and> (\<forall>k. fmlookup d' k =
                  (case fmlookup (msg_fields m) k of
                     None \<Rightarrow> fmlookup d k
                   | Some Undefined \<Rightarrow> None
                   | Some (Defined v) \<Rightarrow> Some (Defined v)))))
   \<and> (fmdom (msg_fields m) = {||} \<longrightarrow>
        docs (snd (update idParse m s)) = docs s
      \<and> calls (snd (update idParse m s)) = calls s @ [FindOne (idParse (msg_id m))])"
proof -
  let ?i = "idParse (msg_id m)" and ?f = "msg_fields m"
  have found: "fmlookup (docs (called (FindOne ?i) s)) ?i = Some d"
    using assms(2) by (simp add: called_simps)
  have set_group: "\<forall>k v. (\<exists>st. op_set (build_modifier ?f) = Some st \<and> fmlookup st k = Some v)
                \<longleftrightarrow> fmlookup ?f k = Some v \<and> v \<noteq> Undefined"
    using set_fields_dom[of _ ?f]
    by (auto simp add: build_modifier_def set_fields_lookup split: if_splits)
  have unset_group: "\<forall>k. (\<exists>un. op_unset (build_modifier ?f) = Some un \<and> k |\<in>| fmdom un)
                \<longleftrightarrow> fmlookup ?f k = Some Undefined"
    using unset_fields_dom[of _ ?f] by (auto simp add: build_modifier_def split: if_splits)
  have no_error: "fst (update idParse m s) = None"
    using assms by (simp add: update_changed coll_update_present[OF found])
  have one_call: "fmdom ?f \<noteq> {||} \<Longrightarrow>
      calls (snd (update idParse m s)) =
        calls s @ [FindOne ?i, Update ?i (Operators (build_modifier ?f))]"
    using assms by (simp add: update_changed coll_update_present[OF found] called_simps)
  have stored: "fmdom ?f \<noteq> {||} \<Longrightarrow>
      docs (snd (update idParse m s)) =
        fmupd ?i (apply_update (Operators (build_modifier ?f)) d) (docs s)"
    using assms by (simp add: update_changed coll_update_present[OF found] called_simps)
  have changed_doc: "fmdom ?f \<noteq> {||} \<Longrightarrow>
      \<exists>d'. docs (snd (update idParse m s)) = fmupd ?i d' (docs s)
          \<and> (\<forall>k. fmlookup d' k =
                  (case fmlookup ?f k of
                     None \<Rightarrow> fmlookup d k
                   | Some Undefined \<Rightarrow> None
                   | Some (Defined v) \<Rightarrow> Some (Defined v)))"
    using stored apply_build_modifier_lookup[of ?f d] by blast
  have empty_noop: "fmdom ?f = {||} \<Longrightarrow>
      docs (snd (update idParse m s)) = docs s
    \<and> calls (snd (update idParse m s)) = calls s @ [FindOne ?i]"
    using assms by (simp add: update_changed called_simps)
  show ?thesis
    using no_error one_call set_group unset_group changed_doc empty_noop by blast
qed

text \<open>
  Document \<open>A\<close> has the name \<open>a\<close>; the message sets the name to \<open>b\<close> and unsets the
  age. Afterwards \<open>A\<close> has the name \<open>b\<close>, no age and its \<^verbatim>\<open>_id\<close>. The same message
  with an empty field mapping changes nothing.
\<close>

theorem changed_sets_and_unsets_witness:
  "msg_msg (example_msg ''changed'' ''A'' None
      (fmupd ''name'' (Defined ''b'') (fmupd ''age'' Undefined fmempty))) = ''changed''
 \<and> fmlookup (docs example_store) (Defined ''A'') = Some (example_doc ''A'' ''a'')
 \<and> fmdom (fmupd ''name'' (Defined ''b'') (fmupd ''age'' Undefined fmempty)
      :: string document) \<noteq> {||}
 \<and> (\<exists>d'. fmlookup (docs (snd (update Defined
        (example_msg ''changed'' ''A'' None
          (fmupd ''name'' (Defined ''b'') (fmupd ''age'' Undefined fmempty)))
        example_store))) (Defined ''A'') = Some d'
      \<and> fmlookup d' ''name'' = Some (Defined ''b'')
      \<and> fmlookup d' ''age'' = None
      \<and> fmlookup d' ''_id'' = Some (Defined ''A''))
 \<and> fmdom (fmempty :: string document) = {||}
 \<and> docs (snd (update Defined (example_msg ''changed'' ''A'' None fmempty) example_store)) =
     docs example_store"
proof -
  let ?f = "fmupd ''name'' (Defined ''b'') (fmupd ''age'' Undefined fmempty) :: string document"
  let ?m = "example_msg ''changed'' ''A'' None ?f"
  have tag: "msg_msg ?m = ''changed''" by simp
  have present: "fmlookup (docs example_store) (Defined (msg_id ?m)) = Some (example_doc ''A'' ''a'')"
    by simp
  have nonempty: "fmdom (msg_fields ?m) \<noteq> {||}" by simp
  from changed_sets_and_unsets
         [where m = ?m and s = example_store and idParse = Defined
            and d = "example_doc ''A'' ''a''"]
       tag present nonempty
  obtain d' where
    stored: "docs (snd (update Defined ?m example_store)) =
               fmupd (Defined (msg_id ?m)) d' (docs example_store)" and
    fields: "\<forall>k. fmlookup d' k =
               (case fmlookup (msg_fields ?m) k of
                  None \<Rightarrow> fmlookup (example_doc ''A'' ''a'') k
                | Some Undefined \<Rightarrow> None
                | Some (Defined v) \<Rightarrow> Some (Defined v))"
    by blast
  have looked_up: "fmlookup (docs (snd (update Defined ?m example_store))) (Defined ''A'') = Some d'"
    by (simp add: stored)
  have name: "fmlookup d' ''name'' = Some (Defined ''b'')"
    and age: "fmlookup d' ''age'' = None"
    and ident: "fmlookup d' ''_id'' = Some (Defined ''A'')"
    by (simp_all add: fields)
  have tag0: "msg_msg (example_msg ''changed'' ''A'' None fmempty) = ''changed''" by simp
  have present0: "fmlookup (docs example_store)
      (Defined (msg_id (example_msg ''changed'' ''A'' None fmempty))) =
      Some (example_doc ''A'' ''a'')"
    by simp
  from changed_sets_and_unsets
         [where m = "example_msg ''changed'' ''A'' None fmempty" and s = example_store
            and idParse = Defined and d = "example_doc ''A'' ''a''"]
       tag0 present0
  have unchanged: "docs (snd (update Defined (example_msg ''changed'' ''A'' None fmempty)
      example_store)) = docs example_store"
    by simp
  show ?thesis
    using looked_up name age ident unchanged by auto
qed

text \<open>
  Claim C6, as the specification states it, fails: the store holds \<open>A\<close> and \<open>B\<close>, the
  message replaces the absent \<open>C\<close> by a document whose own \<^verbatim>\<open>_id\<close> is \<open>A\<close>; the insert
  fails with a duplicate key and the replacement is not in the store.
\<close>

theorem replace_insert_duplicate_counterexample:
  "msg_msg (example_msg ''replace'' ''C'' (Some (example_doc ''A'' ''c'')) fmempty) = ''replace''
 \<and> msg_replace (example_msg ''replace'' ''C'' (Some (example_doc ''A'' ''c'')) fmempty) \<noteq> None
 \<and> fmlookup (docs example_store) (Defined ''C'') = None
 \<and> update Defined (example_msg ''replace'' ''C'' (Some (example_doc ''A'' ''c'')) fmempty)
      example_store =
    (Some DuplicateKey,
     example_store\<lparr>calls := [FindOne (Defined ''C''), Insert (example_doc ''A'' ''c'')]\<rparr>)"
  by (simp add: update_replace coll_insert_def called_def doc_id_def)

text \<open>
  Claim C6, amended: for a \<^verbatim>\<open>replace\<close> message with a replacement document, when the
  identifier of the message is absent, \<^verbatim>\<open>insert\<close> is called with the replacement, and
  the replacement is inserted unless a document is already stored under the
  replacement's own \<^verbatim>\<open>_id\<close>; in that case the insert fails with a duplicate key and
  the documents are what they were. When the identifier is present, the fields of the
  stored document become exactly the fields of the replacement: a field present
  before and absent from the replacement does not survive.
\<close>

theorem replace_with_document:
  assumes "msg_msg m = ''replace''" and "msg_replace m = Some r"
  shows "(fmlookup (docs s) (idParse (msg_id m)) = None \<longrightarrow>
            calls (snd (update idParse m s)) = calls s @ [FindOne (idParse (msg_id m)), Insert r]
          \<and> (if fmlookup (docs s) (doc_id r) = None
              then fst (update idParse m s) = None
                 \<and> docs (snd (update idParse m s)) = fmupd (doc_id r) r (docs s)
              else fst (update idParse m s) = Some DuplicateKey
                 \<and> docs (snd (update idParse m s)) = docs s))
       \<and> (fmlookup (docs s) (idParse (msg_id m)) \<noteq> None \<longrightarrow>
            fst (update idParse m s) = None
          \<and> calls (snd (update idParse m s)) =
              calls s @ [FindOne (idParse (msg_id m)),
                         Update (idParse (msg_id m)) (WholeDocument r)]
          \<and> (\<exists>d'. docs (snd (update idParse m s)) = fmupd (idParse (msg_id m)) d' (docs s)
                \<and> (\<forall>k. k \<noteq> ''_id'' \<longrightarrow> fmlookup d' k = fmlookup r k)))"
proof -
  let ?i = "idParse (msg_id m)"
  have absent: "fmlookup (docs s) ?i = None \<Longrightarrow>
      update idParse m s = coll_insert r (called (FindOne ?i) s)"
    using assms by (simp add: update_replace)
  have present: "fmlookup (docs s) ?i \<noteq> None \<Longrightarrow>
      update idParse m s = coll_update ?i (WholeDocument r) (called (FindOne ?i) s)"
    using assms by (auto simp add: update_replace)
  have insert_half: "fmlookup (docs s) ?i = None \<Longrightarrow>
      calls (snd (update idParse m s)) = calls s @ [FindOne ?i, Insert r]
    \<and> (if fmlookup (docs s) (doc_id r) = None
        then fst (update idParse m s) = None
           \<and> docs (snd (update idParse m s)) = fmupd (doc_id r) r (docs s)
        else fst (update idParse m s) = Some DuplicateKey
           \<and> docs (snd (update idParse m s)) = docs s)"
    by (simp add: absent coll_insert_def called_simps Let_def)
  have update_half: "fmlookup (docs s) ?i \<noteq> None \<Longrightarrow>
      fst (update idParse m s) = None
    \<and> calls (snd (update idParse m s)) = calls s @ [FindOne ?i, Update ?i (WholeDocument r)]
    \<and> docs (snd (update idParse m s)) = fmupd ?i (apply_update (WholeDocument r) d) (docs s)"
    if "fmlookup (docs s) ?i = Some d" for d
    using that by (simp add: present coll_update_def called_simps Let_def)
  have fields: "\<forall>k. k \<noteq> ''_id'' \<longrightarrow> fmlookup (apply_update (WholeDocument r) d) k = fmlookup r k"
    for d
    by (simp add: apply_update_def)
  show ?thesis
    using insert_half update_half fields by blast
qed

text \<open>
  \<open>C\<close> is absent and nothing is stored under the \<^verbatim>\<open>_id\<close> of the replacement: it is
  inserted. \<open>A\<close> is present with a name and the replacement has no name: afterwards
  \<open>A\<close> has none.
\<close>

theorem replace_with_document_witness:
  "fmlookup (docs example_store) (Defined ''C'') = None
 \<and> fmlookup (docs example_store) (doc_id (example_doc ''C'' ''c'')) = None
 \<and> docs (snd (update Defined
      (example_msg ''replace'' ''C'' (Some (example_doc ''C'' ''c'')) fmempty) example_store)) =
    fmupd (Defined ''C'') (example_doc ''C'' ''c'') (docs example_store)
 \<and> fmlookup (docs example_store) (Defined ''A'') \<noteq> None
 \<and> (\<exists>d'. fmlookup (docs (snd (update Defined
        (example_msg ''replace'' ''A'' (Some (fmupd ''_id'' (Defined ''A'') fmempty)) fmempty)
        example_store))) (Defined ''A'') = Some d'
      \<and> fmlookup d' ''name'' = None)"
proof -
  let ?mc = "example_msg ''replace'' ''C'' (Some (example_doc ''C'' ''c'')) fmempty"
  let ?ma = "example_msg ''replace'' ''A'' (Some (fmupd ''_id'' (Defined ''A'') fmempty)) fmempty"
  have own: "doc_id (example_doc ''C'' ''c'') = Defined ''C''"
    by (simp add: doc_id_def)
  from replace_with_document
         [where m = ?mc and r = "example_doc ''C'' ''c''" and s = example_store
            and idParse = Defined]
  have inserted: "docs (snd (update Defined ?mc example_store)) =
      fmupd (Defined ''C'') (example_doc ''C'' ''c'') (docs example_store)"
    by (simp add: own)
  from replace_with_document
         [where m = ?ma and r = "fmupd ''_id'' (Defined ''A'') fmempty" and s = example_store
            and idParse = Defined]
  obtain d' where
    stored: "docs (snd (update Defined ?ma example_store)) =
               fmupd (Defined ''A'') d' (docs example_store)" and
    fields: "\<forall>k. k \<noteq> ''_id'' \<longrightarrow>
               fmlookup d' k = fmlookup (fmupd ''_id'' (Defined ''A'') fmempty) k"
    by auto
  have "fmlookup (docs (snd (update Defined ?ma example_store))) (Defined ''A'') = Some d'"
    by (simp add: stored)
  moreover have "fmlookup d' ''name'' = None"
    using fields by simp
  ultimately show ?thesis
    using inserted own by auto
qed

text \<open>
  Claim C7: a message whose tag is none of \<^verbatim>\<open>replace\<close>, \<^verbatim>\<open>added\<close>, \<^verbatim>\<open>removed\<close> and
  \<^verbatim>\<open>changed\<close> makes \<^verbatim>\<open>update\<close> throw, whatever the store holds, and the documents are
  what they were.
\<close>

theorem update_unrecognized_message:
  assumes "msg_msg m \<notin> {''replace'', ''added'', ''removed'', ''changed''}"
  shows "fst (update idParse m s) = Some (Error ''I don't know how to deal with this message'')
       \<and> docs (snd (update idParse m s)) = docs s"
  using assms by (simp add: update_def coll_findOne_def called_simps Let_def)

theorem update_unrecognized_message_witness:
  "msg_msg (example_msg ''ping'' ''A'' None fmempty)
     \<notin> {''replace'', ''added'', ''removed'', ''changed''}
 \<and> fst (update Defined (example_msg ''ping'' ''A'' None fmempty) example_store) =
     Some (Error ''I don't know how to deal with this message'')"
  using update_unrecognized_message
          [of "example_msg ''ping'' ''A'' None fmempty" Defined example_store]
  by simp

text \<open>
  Claim C9: for an \<^verbatim>\<open>added\<close> message whose identifier is absent, the document handed
  to \<^verbatim>\<open>insert\<close> is the field mapping laid over \<^verbatim>\<open>{_id: mongoId}\<close>: every field of the
  mapping with its value, and \<^verbatim>\<open>_id\<close> with the parsed message id only if the mapping
  has no \<^verbatim>\<open>_id\<close> of its own. A mapping with \<^verbatim>\<open>_id\<close> gives the document that
  identifier; a mapping without gives it the message id, and the insert then succeeds.
  Whenever the insert succeeds, the document is stored under its own identifier.
\<close>

theorem added_document_extends_id:
  assumes "msg_msg m = ''added''" and "fmlookup (docs s) (idParse (msg_id m)) = None"
  shows "calls (snd (update idParse m s)) =
           calls s @ [FindOne (idParse (msg_id m)),
                      Insert (added_document (idParse (msg_id m)) (msg_fields m))]
   \<and> (\<forall>k. fmlookup (added_document (idParse (msg_id m)) (msg_fields m)) k =
           (case fmlookup (msg_fields m) k of
              Some v \<Rightarrow> Some v
            | None \<Rightarrow> if k = ''_id'' then Some (idParse (msg_id m)) else None))
   \<and> (\<forall>v. fmlookup (msg_fields m) ''_id'' = Some v \<longrightarrow>
           doc_id (added_document (idParse (msg_id m)) (msg_fields m)) = v)
   \<and> (fmlookup (msg_fields m) ''_id'' = None \<longrightarrow>
        doc_id (added_document (idParse (msg_id m)) (msg_fields m)) = idParse (msg_id m)
      \<and> fst (update idParse m s) = None
      \<and> docs (snd (update idParse m s)) =
          fmupd (idParse (msg_id m)) (added_document (idParse (msg_id m)) (msg_fields m)) (docs s))
   \<and> (fst (update idParse m s) = None \<longrightarrow>
        docs (snd (update idParse m s)) =
          fmupd (doc_id (added_document (idParse (msg_id m)) (msg_fields m)))
            (added_document (idParse (msg_id m)) (msg_fields m)) (docs s))"
proof -
  let ?i = "idParse (msg_id m)"
  let ?d = "added_document ?i (msg_fields m)"
  have run: "update idParse m s = coll_insert ?d (called (FindOne ?i) s)"
    using assms by (simp add: update_added)
  have log: "calls (snd (update idParse m s)) = calls s @ [FindOne ?i, Insert ?d]"
    by (simp add: run coll_insert_def called_simps Let_def)
  have own_id: "fmlookup (msg_fields m) ''_id'' = None \<Longrightarrow>
      doc_id ?d = ?i \<and> fst (update idParse m s) = None
    \<and> docs (snd (update idParse m s)) = fmupd ?i ?d (docs s)"
    using assms(2)
    by (simp add: run doc_id_added_document coll_insert_absent called_simps)
  have stored: "fst (update idParse m s) = None \<Longrightarrow>
      docs (snd (update idParse m s)) = fmupd (doc_id ?d) ?d (docs s)"
    by (simp add: run coll_insert_def called_simps Let_def split: if_splits)
  show ?thesis
    using log own_id stored
    by (simp add: added_document_lookup doc_id_added_document)
qed

text \<open>
  \<open>C\<close> is absent. A mapping with only a name is stored under \<open>C\<close>. A mapping whose
  \<^verbatim>\<open>_id\<close> is \<open>D\<close> gives a document whose identifier is \<open>D\<close>, not \<open>C\<close>.
\<close>

theorem added_document_extends_id_witness:
  "fmlookup (docs example_store) (Defined ''C'') = None
 \<and> docs (snd (update Defined
      (example_msg ''added'' ''C'' None (fmupd ''name'' (Defined ''c'') fmempty)) example_store)) =
    fmupd (Defined ''C'') (added_document (Defined ''C'') (fmupd ''name'' (Defined ''c'') fmempty))
      (docs example_store)
 \<and> fmlookup (fmupd ''_id'' (Defined ''D'') fmempty) ''_id'' = Some (Defined ''D'')
 \<and> doc_id (added_document (Defined ''C'') (fmupd ''_id'' (Defined ''D'') fmempty)) = Defined ''D''
 \<and> calls (snd (update Defined
      (example_msg ''added'' ''C'' None (fmupd ''_id'' (Defined ''D'') fmempty)) example_store)) =
    [FindOne (Defined ''C''),
     Insert (added_document (Defined ''C'') (fmupd ''_id'' (Defined ''D'') fmempty))]"
  using added_document_extends_id
          [of "example_msg ''added'' ''C'' None (fmupd ''name'' (Defined ''c'') fmempty)"
              example_store Defined]
        added_document_extends_id
          [of "example_msg ''added'' ''C'' None (fmupd ''_id'' (Defined ''D'') fmempty)"
              example_store Defined]
  by simp

section \<open>Registering the store\<close>

text \<open>
  Claim C10: when a collection is constructed with \<^verbatim>\<open>new\<close> under a non-empty name,
  the connection chosen for it is an object with a \<^verbatim>\<open>registerStore\<close> method, and
  that method returns a falsy value for the name, the constructor throws the error
  saying that there is already a collection of that name.
\<close>

theorem Collection_refuses_registered_name:
  assumes "n \<noteq> []"
      and "select_connection env (Some n) (effective_options options) = JsObject c"
      and "registerStore env c = Some register"
      and "\<not> register (Some n)"
  shows "SQL_Collection env True (NameString n) options =
           Inl (Error (''There is already a collection named '' @ [CHR 0x27] @ n @ [CHR 0x27]))"
  using assms by (simp add: SQL_Collection_def Let_def)

text \<open>
  On the client, with the default connection, whose \<^verbatim>\<open>registerStore\<close> refuses the name
  \<^verbatim>\<open>tasks\<close>.
\<close>

theorem Collection_refuses_registered_name_witness:
  "''tasks'' \<noteq> []
 \<and> select_connection example_env (Some ''tasks'') (effective_options NoOptions) = JsObject 0
 \<and> registerStore example_env 0 = Some (\<lambda>name. name \<noteq> Some ''tasks'')
 \<and> \<not> (\<lambda>name. name \<noteq> Some ''tasks'') (Some ''tasks'')
 \<and> SQL_Collection example_env True (NameString ''tasks'') NoOptions =
     Inl (Error (''There is already a collection named '' @ [CHR 0x27] @ ''tasks'' @ [CHR 0x27]))"
proof -
  have named: "''tasks'' \<noteq> []" by simp
  have conn: "select_connection example_env (Some ''tasks'') (effective_options NoOptions)
      = JsObject 0"
    by (simp add: select_connection_def effective_options_def truthy_def)
  have reg: "registerStore example_env 0 = Some (\<lambda>name. name \<noteq> Some ''tasks'')"
    by simp
  have refused: "\<not> (\<lambda>name. name \<noteq> Some ''tasks'') (Some ''tasks'')"
    by simp
  from Collection_refuses_registered_name
         [where n = "''tasks''" and env = example_env and options = NoOptions and c = 0
            and register = "\<lambda>name. name \<noteq> Some ''tasks''"]
       named conn reg refused
  show ?thesis by simp
qed

end
